theory Spec2Isabelle
  imports Main "HOL-Library.Char_ord" "HOL-Library.List_Lexorder"
begin

section \<open>Shared utilities of the scheduling services (packages/shared/utils/index.ts)\<close>

text \<open>
  The numbers of the source are JavaScript numbers. The functions below are used on
  whole minutes and whole milliseconds (the schema stores \<^verbatim>\<open>duration INTEGER\<close> and
  \<^verbatim>\<open>buffer_time INTEGER\<close>), so a finite number is a whole number, an \<open>int\<close>.
  JavaScript computes exactly on whole numbers below \<open>2^53\<close> in absolute value; from
  there on it rounds, and the model, which does not, is outside its range. Numbers
  with a fraction are floating-point values and are not modelled at all.
  A string is the list of its code units, all below 256. An array is a list: what an
  engine can hold in memory or in one array is not part of the model.
\<close>

subsection \<open>Numbers: \<open>NaN\<close>, the infinities, \<^verbatim>\<open>+\<close>, \<^verbatim>\<open>*\<close>, \<^verbatim>\<open><=\<close>\<close>

text \<open>
  The values a time of day can parse to: \<open>NaN\<close>, a whole number, and the two infinities
  (\<^verbatim>\<open>Number("Infinity")\<close> is \<open>Infinity\<close>).
\<close>

datatype number = NaN | Whole int | PosInfinity | NegInfinity

text \<open>\<^verbatim>\<open>a + b\<close>: \<open>NaN\<close> is contagious and \<open>Infinity + (-Infinity)\<close> is \<open>NaN\<close>.\<close>

definition jsAdd :: "number \<Rightarrow> number \<Rightarrow> number" where
  "jsAdd a b =
     (case (a, b) of
        (Whole x, Whole y) \<Rightarrow> Whole (x + y)
      | (NaN, _) \<Rightarrow> NaN
      | (_, NaN) \<Rightarrow> NaN
      | (PosInfinity, NegInfinity) \<Rightarrow> NaN
      | (NegInfinity, PosInfinity) \<Rightarrow> NaN
      | (PosInfinity, _) \<Rightarrow> PosInfinity
      | (NegInfinity, _) \<Rightarrow> NegInfinity
      | (_, PosInfinity) \<Rightarrow> PosInfinity
      | (_, NegInfinity) \<Rightarrow> NegInfinity)"

text \<open>\<^verbatim>\<open>a * k\<close> for a whole constant \<open>k\<close>: \<open>Infinity * 0\<close> is \<open>NaN\<close>.\<close>

definition jsMul :: "number \<Rightarrow> int \<Rightarrow> number" where
  "jsMul a k =
     (case a of
        NaN \<Rightarrow> NaN
      | Whole x \<Rightarrow> Whole (x * k)
      | PosInfinity \<Rightarrow> (if 0 < k then PosInfinity else if k < 0 then NegInfinity else NaN)
      | NegInfinity \<Rightarrow> (if 0 < k then NegInfinity else if k < 0 then PosInfinity else NaN))"

text \<open>\<^verbatim>\<open>a <= b\<close>: false as soon as one side is \<open>NaN\<close>.\<close>

definition jsLessEq :: "number \<Rightarrow> number \<Rightarrow> bool" where
  "jsLessEq a b =
     (case (a, b) of
        (Whole x, Whole y) \<Rightarrow> x \<le> y
      | (NaN, _) \<Rightarrow> False
      | (_, NaN) \<Rightarrow> False
      | (NegInfinity, _) \<Rightarrow> True
      | (_, PosInfinity) \<Rightarrow> True
      | (PosInfinity, _) \<Rightarrow> False
      | (_, NegInfinity) \<Rightarrow> False)"

text \<open>
  The remainder operator \<^verbatim>\<open>%\<close> of JavaScript truncates: the result has the sign of the
  dividend. \<^verbatim>\<open>Math.floor(a / b)\<close> for a positive \<open>b\<close> is \<open>a div b\<close>.
\<close>

definition jsRem :: "int \<Rightarrow> int \<Rightarrow> int" where
  "jsRem a b = (if a < 0 then - ((- a) mod \<bar>b\<bar>) else a mod \<bar>b\<bar>)"

text \<open>
  \<^verbatim>\<open>Math.floor(a / k)\<close> and \<^verbatim>\<open>a % k\<close> for a positive whole constant \<open>k\<close>: an infinity
  divided stays an infinity, and its remainder is \<open>NaN\<close>.
\<close>

definition floorDiv :: "number \<Rightarrow> int \<Rightarrow> number" where
  "floorDiv a k = (case a of Whole x \<Rightarrow> Whole (x div k) | _ \<Rightarrow> a)"

definition remainder :: "number \<Rightarrow> int \<Rightarrow> number" where
  "remainder a k = (case a of Whole x \<Rightarrow> Whole (jsRem x k) | _ \<Rightarrow> NaN)"

subsection \<open>String helpers: \<^verbatim>\<open>split(':')\<close>, \<^verbatim>\<open>Number\<close>, \<^verbatim>\<open>toString\<close>, \<^verbatim>\<open>padStart\<close>\<close>

text \<open>\<^verbatim>\<open>s.split(c)\<close> for a one-character separator: never the empty list.\<close>

fun split :: "char \<Rightarrow> string \<Rightarrow> string list" where
  "split c [] = [[]]"
| "split c (x # xs) =
     (if x = c then [] # split c xs
      else (case split c xs of [] \<Rightarrow> [[x]] | p # ps \<Rightarrow> (x # p) # ps))"

text \<open>
  \<^verbatim>\<open>Number(s)\<close> first strips white space and line terminators from both ends: tab,
  line feed, vertical tab, form feed, carriage return, space and no-break space.
\<close>

definition isWhiteSpace :: "char \<Rightarrow> bool" where
  "isWhiteSpace c = ((of_char c :: nat) \<in> set [9, 10, 11, 12, 13, 32, 160])"

definition trim :: "string \<Rightarrow> string" where
  "trim s = rev (dropWhile isWhiteSpace (rev (dropWhile isWhiteSpace s)))"

definition digitVal :: "char \<Rightarrow> nat option" where
  "digitVal c = (let n = (of_char c :: nat) in if 48 \<le> n \<and> n \<le> 57 then Some (n - 48) else None)"

definition isDigit :: "char \<Rightarrow> bool" where
  "isDigit c = (digitVal c \<noteq> None)"

fun digitsVal :: "nat \<Rightarrow> string \<Rightarrow> nat option" where
  "digitsVal acc [] = Some acc"
| "digitsVal acc (c # cs) =
     (case digitVal c of None \<Rightarrow> None | Some d \<Rightarrow> digitsVal (acc * 10 + d) cs)"

text \<open>Digits of the literals \<^verbatim>\<open>0x..\<close>, \<^verbatim>\<open>0o..\<close> and \<^verbatim>\<open>0b..\<close>, in either case.\<close>

definition radixDigit :: "nat \<Rightarrow> char \<Rightarrow> nat option" where
  "radixDigit base c =
     (let n = (of_char c :: nat);
          v = (if 48 \<le> n \<and> n \<le> 57 then Some (n - 48)
               else if 97 \<le> n \<and> n \<le> 102 then Some (n - 87)
               else if 65 \<le> n \<and> n \<le> 70 then Some (n - 55)
               else None)
      in case v of None \<Rightarrow> None | Some d \<Rightarrow> if d < base then Some d else None)"

fun radixVal :: "nat \<Rightarrow> nat \<Rightarrow> string \<Rightarrow> nat option" where
  "radixVal base acc [] = Some acc"
| "radixVal base acc (c # cs) =
     (case radixDigit base c of None \<Rightarrow> None | Some d \<Rightarrow> radixVal base (acc * base + d) cs)"

text \<open>A radix literal takes no sign and needs a digit after the prefix.\<close>

definition radixLiteral :: "string \<Rightarrow> nat option" where
  "radixLiteral t =
     (case t of
        z # p # ds \<Rightarrow>
          if z \<noteq> CHR ''0'' \<or> ds = [] then None
          else if p = CHR ''x'' \<or> p = CHR ''X'' then radixVal 16 0 ds
          else if p = CHR ''o'' \<or> p = CHR ''O'' then radixVal 8 0 ds
          else if p = CHR ''b'' \<or> p = CHR ''B'' then radixVal 2 0 ds
          else None
      | _ \<Rightarrow> None)"

text \<open>An optional sign: whether it is a minus, and what follows it.\<close>

definition stripSign :: "string \<Rightarrow> bool \<times> string" where
  "stripSign t =
     (case t of
        [] \<Rightarrow> (False, [])
      | c # cs \<Rightarrow> if c = CHR ''-'' then (True, cs) else if c = CHR ''+'' then (False, cs) else (False, t))"

definition signedDigits :: "string \<Rightarrow> int option" where
  "signedDigits t =
     (case stripSign t of (negative, ds) \<Rightarrow>
        if ds = [] then None
        else map_option (\<lambda>n. if negative then - int n else int n) (digitsVal 0 ds))"

text \<open>The exponent part of a decimal literal, \<open>0\<close> when there is none.\<close>

definition exponentPart :: "string \<Rightarrow> int option" where
  "exponentPart r =
     (case r of
        [] \<Rightarrow> Some 0
      | e # ds \<Rightarrow> if e = CHR ''e'' \<or> e = CHR ''E'' then signedDigits ds else None)"

text \<open>
  A decimal literal: an optional sign, digits with an optional point (\<^verbatim>\<open>12\<close>,
  \<^verbatim>\<open>12.\<close>, \<^verbatim>\<open>12.5\<close>, \<^verbatim>\<open>.5\<close>) and an optional exponent. Its value is that of the digits
  times the power of ten; when that is not a whole number the literal is a \<open>Fraction\<close>.
\<close>

datatype literal = NotNumeric | Fraction | WholeValue int

definition decimalLiteral :: "string \<Rightarrow> literal" where
  "decimalLiteral t =
     (case stripSign t of (negative, u) \<Rightarrow>
        let ip = takeWhile isDigit u;
            r1 = dropWhile isDigit u;
            (fp, r2) = (case r1 of
                          [] \<Rightarrow> ([], [])
                        | c # r \<Rightarrow> if c = CHR ''.'' then (takeWhile isDigit r, dropWhile isDigit r)
                                   else ([], r1))
        in if ip = [] \<and> fp = [] then NotNumeric
           else (case (digitsVal 0 (ip @ fp), exponentPart r2) of
                   (Some n, Some x) \<Rightarrow>
                     let k = x - int (length fp);
                         m = (if negative then - int n else int n)
                     in if 0 \<le> k then WholeValue (m * 10 ^ nat k)
                        else if int n mod 10 ^ nat (- k) = 0 then WholeValue (m div 10 ^ nat (- k))
                        else Fraction
                 | _ \<Rightarrow> NotNumeric))"

text \<open>
  \<^verbatim>\<open>Number(s)\<close> on a string: the stripped string is empty (\<open>0\<close>), an infinity, a radix
  literal, a decimal literal, or not a number (\<open>NaN\<close>). The result is \<open>None\<close> where the
  model ends, on a literal whose value has a fraction (\<^verbatim>\<open>"9.5"\<close>, \<^verbatim>\<open>"1e-3"\<close>); a
  whole value is kept as it is (see the range above).
\<close>

definition Number :: "string \<Rightarrow> number option" where
  "Number s =
     (let t = trim s
      in if t = [] then Some (Whole 0)
         else if t = ''Infinity'' \<or> t = ''+Infinity'' then Some PosInfinity
         else if t = ''-Infinity'' then Some NegInfinity
         else (case radixLiteral t of
                 Some v \<Rightarrow> Some (Whole (int v))
               | None \<Rightarrow>
                   (case decimalLiteral t of
                      WholeValue v \<Rightarrow> Some (Whole v)
                    | Fraction \<Rightarrow> None
                    | NotNumeric \<Rightarrow> Some NaN)))"

definition digitChar :: "nat \<Rightarrow> char" where
  "digitChar d = ''0123456789'' ! d"

fun natToString :: "nat \<Rightarrow> string" where
  "natToString n = (if n < 10 then [digitChar n] else natToString (n div 10) @ [digitChar (n mod 10)])"

declare natToString.simps [simp del]

text \<open>\<^verbatim>\<open>n.toString()\<close> of a whole number, and of any number.\<close>

definition toString :: "int \<Rightarrow> string" where
  "toString i = (if i < 0 then CHR ''-'' # natToString (nat (- i)) else natToString (nat i))"

definition numberToString :: "number \<Rightarrow> string" where
  "numberToString a =
     (case a of
        NaN \<Rightarrow> ''NaN''
      | Whole i \<Rightarrow> toString i
      | PosInfinity \<Rightarrow> ''Infinity''
      | NegInfinity \<Rightarrow> ''-Infinity'')"

text \<open>\<^verbatim>\<open>s.padStart(n, '0')\<close>.\<close>

definition padStart :: "nat \<Rightarrow> char \<Rightarrow> string \<Rightarrow> string" where
  "padStart n c s = replicate (n - length s) c @ s"

subsection \<open>\<^verbatim>\<open>generateTimeSlots\<close>\<close>

text \<open>
  \<^verbatim>\<open>const [h, m] = t.split(':').map(Number)\<close> followed by \<^verbatim>\<open>h * 60 + m\<close>: a missing
  second component is \<^verbatim>\<open>undefined\<close> and the sum is \<open>NaN\<close>; components after the second
  are converted and ignored. The result is \<open>None\<close> when one of the two components is a
  literal with a fraction.
\<close>

definition timeMinutes :: "string \<Rightarrow> number option" where
  "timeMinutes t =
     (case split CHR '':'' t of
        h # m # _ \<Rightarrow>
          (case (Number h, Number m) of
             (Some hour, Some minute) \<Rightarrow> Some (jsAdd (jsMul hour 60) minute)
           | _ \<Rightarrow> None)
      | _ \<Rightarrow> Some NaN)"

text \<open>The template string pushed by the loop body for the cursor \<open>current\<close>.\<close>

definition formatSlot :: "number \<Rightarrow> string" where
  "formatSlot current =
     (let hour = floorDiv current 60; minute = remainder current 60
      in padStart 2 CHR ''0'' (numberToString hour) @ '':''
         @ padStart 2 CHR ''0'' (numberToString minute))"

text \<open>
  The \<^verbatim>\<open>while\<close> loop. It need not end (a step of \<open>0\<close> never moves the cursor, and no
  cursor passes an end of \<open>Infinity\<close>), so it is a partial function: \<open>None\<close> is the run
  that never returns.
\<close>

partial_function (option) slotLoop :: "number \<Rightarrow> number \<Rightarrow> number \<Rightarrow> string list \<Rightarrow> string list option" where
  "slotLoop current end slotDuration slots =
     (if jsLessEq (jsAdd current slotDuration) end
      then slotLoop (jsAdd current slotDuration) end slotDuration (slots @ [formatSlot current])
      else Some slots)"

declare slotLoop.simps [code]

text \<open>
  What a call does: it returns a value, it never returns, or its input holds a number
  with a fraction, on which the model says nothing.
\<close>

datatype 'a outcome = Returns 'a | NeverReturns | NotModelled

text \<open>
  \<open>duration\<close> and \<open>bufferTime\<close> are whole minutes. A comparison with \<open>NaN\<close> is false:
  when a time does not parse, the loop body never runs and the empty array is returned.
\<close>

definition generateTimeSlots :: "string \<Rightarrow> string \<Rightarrow> int \<Rightarrow> int \<Rightarrow> string list outcome" where
  "generateTimeSlots startTime endTime duration bufferTime =
     (case (timeMinutes startTime, timeMinutes endTime) of
        (Some current, Some end) \<Rightarrow>
          (let slotDuration = Whole (duration + bufferTime)
           in case slotLoop current end slotDuration [] of
                Some slots \<Rightarrow> Returns slots
              | None \<Rightarrow> NeverReturns)
      | _ \<Rightarrow> NotModelled)"



text \<open>
  The slot generator as the design document words it: emit a slot at the cursor, advance
  by \<open>duration + buffer\<close>, stop once \<open>cursor + duration > interval.end\<close> (the buffer
  is not part of the stop test). Services have \<open>duration > 0\<close> and \<open>buffer \<ge> 0\<close>.
  It is compared with the loop of the source below.
\<close>

function specSlotStarts :: "int \<Rightarrow> int \<Rightarrow> int \<Rightarrow> int \<Rightarrow> int list" where
  "specSlotStarts cursor intervalEnd duration buffer =
     (if 0 < duration \<and> 0 \<le> buffer \<and> cursor + duration \<le> intervalEnd
      then cursor # specSlotStarts (cursor + (duration + buffer)) intervalEnd duration buffer
      else [])"
  by pat_completeness auto
termination
  by (relation "measure (\<lambda>(cursor, intervalEnd, duration, buffer). nat (intervalEnd - cursor + 1))") auto

declare specSlotStarts.simps [simp del]

subsection \<open>Dates: \<^verbatim>\<open>addMinutes\<close>, \<^verbatim>\<open>addDays\<close>, \<^verbatim>\<open>formatTime\<close>\<close>

text \<open>
  A JavaScript \<^verbatim>\<open>Date\<close> holds a time value: a whole number of milliseconds since the
  epoch, at most \<open>8.64 * 10^15\<close> in absolute value, or \<open>NaN\<close> (an invalid date). The
  constructor \<^verbatim>\<open>new Date(v)\<close> clips: a value out of that range, or \<open>NaN\<close>, gives the
  invalid date. \<^verbatim>\<open>getTime()\<close> returns the time value, \<open>NaN\<close> for the invalid date.
\<close>

datatype Date = Date (getTime: "int option")

definition maxTimeValue :: int where
  "maxTimeValue = 8640000000000000"

definition newDate :: "int option \<Rightarrow> Date" where
  "newDate v =
     (case v of
        None \<Rightarrow> Date None
      | Some t \<Rightarrow> if \<bar>t\<bar> \<le> maxTimeValue then Date (Some t) else Date None)"

definition addMinutes :: "Date \<Rightarrow> int \<Rightarrow> Date" where
  "addMinutes date minutes = newDate (map_option (\<lambda>t. t + minutes * 60 * 1000) (getTime date))"

definition addDays :: "Date \<Rightarrow> int \<Rightarrow> Date" where
  "addDays date days = newDate (map_option (\<lambda>t. t + days * 24 * 60 * 60 * 1000) (getTime date))"

text \<open>
  Local time depends on the time zone of the process: \<open>tz t\<close> is the offset from UTC, in
  minutes, in force at the instant \<open>t\<close>.
\<close>

definition localTime :: "(int \<Rightarrow> int) \<Rightarrow> int \<Rightarrow> int" where
  "localTime tz t = t + tz t * 60000"

definition pad2 :: "int \<Rightarrow> string" where
  "pad2 n = padStart 2 CHR ''0'' (toString n)"

text \<open>
  \<^verbatim>\<open>date.toTimeString()\<close>: \<^verbatim>\<open>HH:MM:SS GMT+hhmm\<close> in local time (the zone name an
  implementation may append after a further space is left out), and
  \<^verbatim>\<open>Invalid Date\<close> for the invalid date.
\<close>

definition toTimeString :: "(int \<Rightarrow> int) \<Rightarrow> Date \<Rightarrow> string" where
  "toTimeString tz date =
     (case getTime date of
        None \<Rightarrow> ''Invalid Date''
      | Some t \<Rightarrow>
          (let l = localTime tz t; off = tz t
           in pad2 ((l div 3600000) mod 24) @ '':'' @ pad2 ((l div 60000) mod 60) @ '':''
              @ pad2 ((l div 1000) mod 60) @ '' GMT'' @ (if off < 0 then ''-'' else ''+'')
              @ pad2 (\<bar>off\<bar> div 60) @ pad2 (\<bar>off\<bar> mod 60)))"

text \<open>\<^verbatim>\<open>date.toTimeString().split(' ')[0].substring(0, 5)\<close>.\<close>

definition formatTime :: "(int \<Rightarrow> int) \<Rightarrow> Date \<Rightarrow> string" where
  "formatTime tz date =
     (case split CHR '' '' (toTimeString tz date) of [] \<Rightarrow> [] | w # _ \<Rightarrow> take 5 w)"

subsection \<open>\<^verbatim>\<open>isBusinessHours\<close>\<close>

definition weekdayNames :: "string list" where
  "weekdayNames =
     [''Sunday'', ''Monday'', ''Tuesday'', ''Wednesday'', ''Thursday'', ''Friday'', ''Saturday'']"

text \<open>
  \<^verbatim>\<open>date.toLocaleDateString('en-US', { weekday: 'long' })\<close>: the epoch was a Thursday.
\<close>

definition weekdayLong :: "(int \<Rightarrow> int) \<Rightarrow> Date \<Rightarrow> string" where
  "weekdayLong tz date =
     (case getTime date of
        None \<Rightarrow> ''Invalid Date''
      | Some t \<Rightarrow> weekdayNames ! nat ((localTime tz t div 86400000 + 4) mod 7))"

definition toLowerCase :: "string \<Rightarrow> string" where
  "toLowerCase s =
     map (\<lambda>c. if CHR ''A'' \<le> c \<and> c \<le> CHR ''Z'' then char_of (of_char c + (32::nat)) else c) s"

text \<open>
  The interface \<^verbatim>\<open>TimeSlot { start: string; end: string }\<close>; \<open>end\<close> is reserved in
  Isabelle, so the fields carry a prefix.
\<close>

record TimeSlot =
  slot_start :: string
  slot_end :: string

text \<open>
  An entry of \<^verbatim>\<open>workingHours: Record<string, any>\<close>, as far as the guard of
  \<^verbatim>\<open>isBusinessHours\<close> tells values apart: a falsy value, a truthy value that is not an
  array, or an array, whose elements are time slots as the interface \<^verbatim>\<open>WorkingHours\<close>
  declares. An absent key reads as \<^verbatim>\<open>undefined\<close>.
\<close>

datatype DayHours = Falsy | NotArray | Slots "TimeSlot list"

text \<open>
  Strings compare by code unit, lexicographically, as \<^verbatim>\<open>>=\<close> and \<^verbatim>\<open><=\<close> do on two
  strings in JavaScript.
\<close>

definition isBusinessHours :: "(int \<Rightarrow> int) \<Rightarrow> Date \<Rightarrow> (string \<rightharpoonup> DayHours) \<Rightarrow> bool" where
  "isBusinessHours tz date workingHours =
     (let day = toLowerCase (weekdayLong tz date);
          time = formatTime tz date
      in case workingHours day of
           None \<Rightarrow> False
         | Some Falsy \<Rightarrow> False
         | Some NotArray \<Rightarrow> False
         | Some (Slots dayHours) \<Rightarrow>
             if length dayHours = 0 then False
             else list_ex (\<lambda>slot. time \<ge> slot_start slot \<and> time \<le> slot_end slot) dayHours)"

section \<open>The booking engine\<close>

text \<open>
  The repository declares the data the engine works on (the interfaces \<^verbatim>\<open>Service\<close> and
  \<^verbatim>\<open>Appointment\<close>, the enum \<^verbatim>\<open>AppointmentStatus\<close>, the table \<^verbatim>\<open>appointments\<close>),
  but the booking service itself only answers health checks: \<^verbatim>\<open>attemptBook\<close>,
  \<^verbatim>\<open>cancel\<close> and \<^verbatim>\<open>reschedule\<close> are not in the source. The types below follow the
  source; the operations are modelled from the design document, section 4.4.
  Instants are milliseconds since the epoch; durations and buffers are minutes, the
  advance-booking horizon is in days.
\<close>

datatype AppointmentStatus = SCHEDULED | CANCELLED | COMPLETED | NO_SHOW

text \<open>
  The fields of \<^verbatim>\<open>Service\<close> and \<^verbatim>\<open>Appointment\<close> the engine reads or writes (names,
  contact data, payment data and notes are carried along unchanged and left out). The
  field \<^verbatim>\<open>id\<close> is \<open>service_id\<close> and \<open>appointment_id\<close>.
\<close>

record Service =
  service_id :: string
  duration :: int
  bufferTime :: int
  maxAdvanceBooking :: int

record Appointment =
  appointment_id :: nat
  businessId :: string
  serviceId :: string
  staffId :: string
  customerId :: string
  startTime :: int
  endTime :: int
  status :: AppointmentStatus
  createdAt :: int
  updatedAt :: int

text \<open>
  Modelled from the spec: the error kinds of section 7 and the outbound events of section 6
  (\<^verbatim>\<open>SlotFreed\<close> carries staff, service and the freed interval); the engine that
  raises them is not in the source.
\<close>

datatype ConflictReason = SlotTaken | OutsideWorkingHours | TooFarInAdvance

datatype EngineError = NotFoundError | ConflictError ConflictReason | InvalidStateError | BusyError

datatype Event =
  AppointmentConfirmed Appointment
| AppointmentCancelled Appointment
| SlotFreed string string int int

text \<open>
  Modelled from the spec: the state the engine works on (no store is in the source): the
  services of the business, the working-hours registry (the open intervals of a staff
  member on the date of an instant, \<open>None\<close> for an unknown staff member), the
  appointment store, the next free appointment identifier, and the events handed to the
  collaborators so far.
\<close>

record Engine =
  services :: "string \<rightharpoonup> Service"
  openIntervals :: "string \<Rightarrow> int \<Rightarrow> (int \<times> int) list option"
  appointments :: "Appointment list"
  nextId :: nat
  events :: "Event list"

text \<open>
  Modelled from the spec: the interval an appointment occupies, \<open>[start, end + buffer)\<close>,
  the buffer being that of the appointment's service (section 3: overlapping includes
  the trailing buffer time).
\<close>

definition occupiedUntil :: "(string \<rightharpoonup> Service) \<Rightarrow> Appointment \<Rightarrow> int" where
  "occupiedUntil svcs a =
     endTime a + (case svcs (serviceId a) of None \<Rightarrow> 0 | Some svc \<Rightarrow> bufferTime svc * 60000)"

text \<open>
  Modelled from the spec: two appointments conflict when they belong to the same staff
  member, both are Scheduled, and their occupied intervals share an instant.
\<close>

definition conflicts :: "(string \<rightharpoonup> Service) \<Rightarrow> Appointment \<Rightarrow> Appointment \<Rightarrow> bool" where
  "conflicts svcs a b \<longleftrightarrow>
     staffId a = staffId b \<and> status a = SCHEDULED \<and> status b = SCHEDULED
     \<and> startTime a < occupiedUntil svcs b \<and> startTime b < occupiedUntil svcs a"

text \<open>
  Modelled from the spec: the invariant of section 3 and section 8, no two distinct rows
  of the store conflict.
\<close>

definition noDoubleBooking :: "Engine \<Rightarrow> bool" where
  "noDoubleBooking eng = sorted_wrt (\<lambda>a b. \<not> conflicts (services eng) a b) (appointments eng)"

text \<open>
  Modelled from the spec: lookup and update of a row of the store by its identifier, the
  first row that carries it.
\<close>

definition findAppointment :: "Engine \<Rightarrow> nat \<Rightarrow> Appointment option" where
  "findAppointment eng i = find (\<lambda>a. appointment_id a = i) (appointments eng)"

fun updateAppointment :: "nat \<Rightarrow> (Appointment \<Rightarrow> Appointment) \<Rightarrow> Appointment list \<Rightarrow> Appointment list" where
  "updateAppointment i f [] = []"
| "updateAppointment i f (a # as) =
     (if appointment_id a = i then f a # as else a # updateAppointment i f as)"

text \<open>
  Modelled from the spec: \<^verbatim>\<open>attemptBook(business, staff, service, customer, startTime)\<close>,
  steps 1 to 6 of section 4.4, run inside the serialization scope of the staff member.
  An unknown service or staff member is a \<^verbatim>\<open>NotFoundError\<close>; every error leaves the
  state as it was. \<open>now\<close> is the clock, passed in (section 9).
\<close>

definition attemptBook ::
  "Engine \<Rightarrow> int \<Rightarrow> string \<Rightarrow> string \<Rightarrow> string \<Rightarrow> string \<Rightarrow> int \<Rightarrow> (EngineError + Appointment) \<times> Engine" where
  "attemptBook eng now business staff service customer start =
     (case services eng service of
        None \<Rightarrow> (Inl NotFoundError, eng)
      | Some svc \<Rightarrow>
          (case openIntervals eng staff start of
             None \<Rightarrow> (Inl NotFoundError, eng)
           | Some intervals \<Rightarrow>
               (let candidate = \<lparr>appointment_id = nextId eng, businessId = business,
                      serviceId = service, staffId = staff, customerId = customer,
                      startTime = start, endTime = start + duration svc * 60000,
                      status = SCHEDULED, createdAt = now, updatedAt = now\<rparr>
                in if list_ex (conflicts (services eng) candidate) (appointments eng)
                   then (Inl (ConflictError SlotTaken), eng)
                   else if \<not> list_ex (\<lambda>(opening, closing). opening \<le> start
                               \<and> occupiedUntil (services eng) candidate \<le> closing) intervals
                   then (Inl (ConflictError OutsideWorkingHours), eng)
                   else if now + maxAdvanceBooking svc * 86400000 < start
                   then (Inl (ConflictError TooFarInAdvance), eng)
                   else (Inr candidate,
                         eng\<lparr>appointments := appointments eng @ [candidate],
                             nextId := Suc (nextId eng),
                             events := events eng @ [AppointmentConfirmed candidate]\<rparr>))))"

text \<open>
  Modelled from the spec: the state change of a cancellation, a Scheduled appointment
  becomes Cancelled; \<^verbatim>\<open>NotFoundError\<close> for an unknown identifier,
  \<^verbatim>\<open>InvalidStateError\<close> for an appointment that is not Scheduled.
\<close>

definition markCancelled :: "Engine \<Rightarrow> int \<Rightarrow> nat \<Rightarrow> (EngineError + Appointment) \<times> Engine" where
  "markCancelled eng now i =
     (case findAppointment eng i of
        None \<Rightarrow> (Inl NotFoundError, eng)
      | Some a \<Rightarrow>
          if status a \<noteq> SCHEDULED then (Inl InvalidStateError, eng)
          else (Inr a,
                eng\<lparr>appointments :=
                  updateAppointment i (\<lambda>x. x\<lparr>status := CANCELLED, updatedAt := now\<rparr>)
                    (appointments eng)\<rparr>))"

text \<open>Modelled from the spec: the events a cancellation emits (section 4.4).\<close>

definition cancelEvents :: "Appointment \<Rightarrow> Event list" where
  "cancelEvents a =
     [AppointmentCancelled a, SlotFreed (staffId a) (serviceId a) (startTime a) (endTime a)]"

text \<open>
  Modelled from the spec: \<^verbatim>\<open>cancel(appointmentId, actor)\<close>; on success the slot is
  released and \<^verbatim>\<open>SlotFreed\<close> is emitted for the waitlist.
\<close>

definition cancel :: "Engine \<Rightarrow> int \<Rightarrow> nat \<Rightarrow> string \<Rightarrow> (EngineError + Appointment) \<times> Engine" where
  "cancel eng now i actor =
     (case markCancelled eng now i of
        (Inl e, _) \<Rightarrow> (Inl e, eng)
      | (Inr a, eng') \<Rightarrow> (Inr a, eng'\<lparr>events := events eng' @ cancelEvents a\<rparr>))"

text \<open>
  Modelled from the spec: \<^verbatim>\<open>reschedule\<close>, the atomic pair of section 4.4. The
  appointment is cancelled and the new time is booked in the same serialization scope;
  when the booking fails, the compensating action of section 7 writes the original row
  back. Events leave the engine only when the pair has succeeded.
\<close>

definition reschedule :: "Engine \<Rightarrow> int \<Rightarrow> nat \<Rightarrow> int \<Rightarrow> string \<Rightarrow> (EngineError + Appointment) \<times> Engine" where
  "reschedule eng now i newStart actor =
     (case markCancelled eng now i of
        (Inl e, _) \<Rightarrow> (Inl e, eng)
      | (Inr original, eng1) \<Rightarrow>
          (case attemptBook eng1 now (businessId original) (staffId original)
                  (serviceId original) (customerId original) newStart of
             (Inl e, eng2) \<Rightarrow>
               (Inl e, eng2\<lparr>appointments :=
                          updateAppointment i (\<lambda>_. original) (appointments eng2)\<rparr>)
           | (Inr booked, eng2) \<Rightarrow>
               (Inr booked, eng2\<lparr>events := events eng2 @ cancelEvents original\<rparr>)))"

text \<open>
  Modelled from the spec: the inbound operations that write the appointment store. A
  recurring series and a waitlist promotion reach the store through \<^verbatim>\<open>attemptBook\<close>
  only, one call per occurrence or per waiting customer, so a run of them is a sequence
  of \<open>AttemptBook\<close> requests.
\<close>

datatype Request =
  AttemptBook string string string string int
| Cancel nat string
| Reschedule nat int string

text \<open>
  Modelled from the spec: one call of the engine at the instant \<open>now\<close>. \<open>acquired\<close>
  tells whether the serialization scope of the staff member was obtained within the
  bounded wait; when it was not, the call fails with \<^verbatim>\<open>BusyError\<close> and does nothing
  (section 5).
\<close>

definition handle :: "Engine \<Rightarrow> int \<times> bool \<times> Request \<Rightarrow> (EngineError + Appointment) \<times> Engine" where
  "handle eng call =
     (case call of (now, acquired, request) \<Rightarrow>
        if \<not> acquired then (Inl BusyError, eng)
        else (case request of
                AttemptBook business staff service customer start \<Rightarrow>
                  attemptBook eng now business staff service customer start
              | Cancel i actor \<Rightarrow> cancel eng now i actor
              | Reschedule i newStart actor \<Rightarrow> reschedule eng now i newStart actor))"

text \<open>Modelled from the spec: the calls of a sequence, served one after the other.\<close>

fun run :: "Engine \<Rightarrow> (int \<times> bool \<times> Request) list \<Rightarrow> Engine" where
  "run eng [] = eng"
| "run eng (call # calls) = run (snd (handle eng call)) calls"

text \<open>
  The constraints of the table \<^verbatim>\<open>appointments\<close> in the architecture document:
  \<^verbatim>\<open>CHECK (end_time > start_time)\<close> and
  \<^verbatim>\<open>UNIQUE (staff_id, start_time, end_time, status)\<close>.
\<close>

definition valid_times :: "Appointment \<Rightarrow> bool" where
  "valid_times a \<longleftrightarrow> endTime a > startTime a"

definition unique_slot :: "Appointment list \<Rightarrow> bool" where
  "unique_slot rows \<longleftrightarrow> distinct (map (\<lambda>a. (staffId a, startTime a, endTime a, status a)) rows)"

text \<open>
  Modelled from the spec: a store after the scenarios of section 8, a staff member open
  from 09:00 to 12:00 (here on 1 January 1970, UTC), a service of 30 minutes with a buffer
  of 10 minutes, and two appointments in the store, at 09:00 and at 10:20.
\<close>

definition bobsAppointment :: Appointment where
  "bobsAppointment =
     \<lparr>appointment_id = 0, businessId = ''salon'', serviceId = ''cut'', staffId = ''ann'',
      customerId = ''bob'', startTime = 32400000, endTime = 34200000, status = SCHEDULED,
      createdAt = 0, updatedAt = 0\<rparr>"

definition carolsAppointment :: Appointment where
  "carolsAppointment =
     \<lparr>appointment_id = 1, businessId = ''salon'', serviceId = ''cut'', staffId = ''ann'',
      customerId = ''carol'', startTime = 37200000, endTime = 39000000, status = SCHEDULED,
      createdAt = 0, updatedAt = 0\<rparr>"

definition scenarioEngine :: Engine where
  "scenarioEngine =
     \<lparr>services = [''cut'' \<mapsto> \<lparr>service_id = ''cut'', duration = 30, bufferTime = 10,
                                maxAdvanceBooking = 90\<rparr>],
      openIntervals = (\<lambda>staff t. if staff = ''ann'' then Some [(32400000, 43200000)] else None),
      appointments = [bobsAppointment, carolsAppointment],
      nextId = 2,
      events = []\<rparr>"

text \<open>
  A run on that store: a booking of the taken 09:00 slot, a booking that finds the scope
  busy, a booking of 09:40, a reschedule of the 09:00 appointment onto a taken time, a
  cancellation, a reschedule that succeeds, and a cancellation of a cancelled appointment.
\<close>

definition scenarioCalls :: "(int \<times> bool \<times> Request) list" where
  "scenarioCalls =
     [(1000, True, AttemptBook ''salon'' ''ann'' ''cut'' ''eve'' 32400000),
      (2000, False, AttemptBook ''salon'' ''ann'' ''cut'' ''eve'' 34800000),
      (3000, True, AttemptBook ''salon'' ''ann'' ''cut'' ''eve'' 34800000),
      (4000, True, Reschedule 0 36000000 ''bob''),
      (5000, True, Cancel 2 ''eve''),
      (6000, True, Reschedule 0 34800000 ''bob''),
      (7000, True, Cancel 2 ''eve'')]"

section \<open>Properties of the slot generator\<close>

subsection \<open>When the loop returns and when it does not\<close>




lemma jsAdd_Whole [simp]: "jsAdd (Whole x) (Whole y) = Whole (x + y)"
  by (simp add: jsAdd_def)

lemma jsLessEq_Whole [simp]: "jsLessEq (Whole x) (Whole y) \<longleftrightarrow> x \<le> y"
  by (simp add: jsLessEq_def)




text \<open>On whole numbers with a positive step the loop returns the cursors in closed form.\<close>

lemma slotLoop_closed:
  "0 < sd \<Longrightarrow> nat ((e - c) div sd) = n \<Longrightarrow>
   slotLoop (Whole c) (Whole e) (Whole sd) acc
     = Some (acc @ map (\<lambda>k. formatSlot (Whole (c + int k * sd))) [0..<n])"
proof (induction n arbitrary: c acc)
  case 0
  then have "\<not> 0 < (e - c) div sd" by simp
  then have "e - c < sd" using 0(1) pos_imp_zdiv_pos_iff [of sd "e - c"] by linarith
  then show ?case by (subst slotLoop.simps) simp
next
  case (Suc n)
  then have d: "(e - c) div sd = int n + 1" by linarith
  then have ge: "sd \<le> e - c"
    using Suc.prems(1) pos_imp_zdiv_pos_iff [of sd "e - c"] by linarith
  have "((e - (c + sd)) + sd) div sd = (e - (c + sd)) div sd + 1"
    using Suc.prems(1) by (simp only: div_add_self2)
  then have n': "nat ((e - (c + sd)) div sd) = n" using d by simp
  have "slotLoop (Whole c) (Whole e) (Whole sd) acc
      = slotLoop (Whole (c + sd)) (Whole e) (Whole sd) (acc @ [formatSlot (Whole c)])"
    using ge by (subst slotLoop.simps) simp
  also have "\<dots> = Some ((acc @ [formatSlot (Whole c)])
      @ map (\<lambda>k. formatSlot (Whole (c + sd + int k * sd))) [0..<n])"
    using Suc.IH [OF Suc.prems(1) n'] by simp
  also have "map (\<lambda>k. formatSlot (Whole (c + sd + int k * sd))) [0..<n]
      = map (\<lambda>k. formatSlot (Whole (c + int k * sd))) (map Suc [0..<n])"
    by (simp add: algebra_simps)
  finally show ?case by (simp add: upt_conv_Cons map_Suc_upt del: upt_Suc)
qed

lemma slot_count_iff:
  assumes "0 < sd"
  shows "k < nat ((e - c) div sd) \<longleftrightarrow> c + int k * sd + sd \<le> (e::int)"
proof
  assume "k < nat ((e - c) div sd)"
  then have "int k + 1 \<le> (e - c) div sd" by linarith
  then have "(int k + 1) * sd \<le> (e - c) div sd * sd"
    using assms by (simp add: mult_right_mono)
  also have "\<dots> = (e - c) - (e - c) mod sd" by (simp add: minus_mod_eq_div_mult)
  also have "\<dots> \<le> e - c" using assms by simp
  finally show "c + int k * sd + sd \<le> e" by (simp add: algebra_simps)
next
  assume "c + int k * sd + sd \<le> e"
  then have "(int k + 1) * sd \<le> e - c" by (simp add: algebra_simps)
  then have "((int k + 1) * sd) div sd \<le> (e - c) div sd" using assms by (rule zdiv_mono1)
  then have "int k + 1 \<le> (e - c) div sd" using assms by simp
  then show "k < nat ((e - c) div sd)" by linarith
qed

lemma generateTimeSlots_closed:
  assumes "0 < dur + buf"
    and "timeMinutes startT = Some (Whole c)" and "timeMinutes endT = Some (Whole e)"
  shows "generateTimeSlots startT endT dur buf =
     Returns (map (\<lambda>k. formatSlot (Whole (c + int k * (dur + buf))))
             [0..<nat ((e - c) div (dur + buf))])"
  using assms slotLoop_closed [of "dur + buf" e c _ "[]"]
  by (simp add: generateTimeSlots_def)




subsection \<open>A slot string reads back as its cursor\<close>

lemma digitVal_digitChar: "d < 10 \<Longrightarrow> digitVal (digitChar d) = Some d"
proof -
  assume "d < 10"
  then have "d \<in> {0, 1, 2, 3, 4, 5, 6, 7, 8, 9}" by auto
  then show ?thesis by (auto simp: digitVal_def digitChar_def)
qed

lemma digitVal_colon: "digitVal CHR '':'' = None"
  by (simp add: digitVal_def)

lemma digitVal_zero: "digitVal CHR ''0'' = Some 0"
  by (simp add: digitVal_def)

lemma digitsVal_append:
  "digitsVal acc (xs @ ys) = (case digitsVal acc xs of None \<Rightarrow> None | Some a \<Rightarrow> digitsVal a ys)"
  by (induction xs arbitrary: acc) (auto split: option.splits)

lemma natToString_nonempty: "natToString n \<noteq> []"
  by (subst natToString.simps) simp

lemma digitsVal_natToString: "digitsVal 0 (natToString n) = Some n"
proof (induction n rule: natToString.induct)
  case (1 n)
  show ?case
  proof (cases "n < 10")
    case True
    then show ?thesis by (subst natToString.simps) (simp add: digitVal_digitChar)
  next
    case False
    then have "digitsVal 0 (natToString (n div 10)) = Some (n div 10)" using 1 by simp
    moreover have "n mod 10 < 10" by simp
    ultimately show ?thesis using False
      by (subst natToString.simps) (simp add: digitsVal_append digitVal_digitChar)
  qed
qed

lemma digitsVal_leading_zeros: "digitsVal 0 (replicate k CHR ''0'' @ s) = digitsVal 0 s"
  by (induction k) (simp_all add: digitVal_zero)

lemma digitsVal_all_digits: "digitsVal acc s = Some n \<Longrightarrow> \<forall>c\<in>set s. isDigit c"
  by (induction s arbitrary: acc) (auto simp: isDigit_def split: option.splits)

lemma digitsVal_no_colon: "digitsVal acc s = Some n \<Longrightarrow> CHR '':'' \<notin> set s"
  using digitsVal_all_digits [of acc s n] by (auto simp: isDigit_def digitVal_colon)

lemma isDigit_range: "isDigit c \<longleftrightarrow> 48 \<le> (of_char c :: nat) \<and> (of_char c :: nat) \<le> 57"
  by (simp add: isDigit_def digitVal_def Let_def)

lemma trim_digits:
  assumes "\<forall>c\<in>set s. isDigit c"
  shows "trim s = s"
proof -
  have ws: "\<not> isWhiteSpace c" if "isDigit c" for c
    using that by (auto simp: isDigit_range isWhiteSpace_def)
  have keep: "dropWhile isWhiteSpace t = t" if "\<forall>c\<in>set t. isDigit c" for t
    using that ws by (cases t) auto
  show ?thesis using assms by (simp add: trim_def keep)
qed

lemma Number_digits:
  assumes "s \<noteq> []" and "digitsVal 0 s = Some n"
  shows "Number s = Some (Whole (int n))"
proof -
  have digits: "\<forall>c\<in>set s. isDigit c" using assms(2) by (rule digitsVal_all_digits)
  obtain c cs where s: "s = c # cs" using assms(1) by (cases s) auto
  have c: "isDigit c" using digits s by simp
  have codes: "c \<noteq> CHR ''-''" "c \<noteq> CHR ''+''" "c \<noteq> CHR ''I''"
    using c by (auto simp: isDigit_range)
  have strip: "stripSign s = (False, s)" using codes s by (simp add: stripSign_def)
  have radix: "radixLiteral s = None"
  proof (cases cs)
    case Nil
    then show ?thesis using s by (simp add: radixLiteral_def)
  next
    case (Cons p ds)
    then have "isDigit p" using digits s by simp
    then have "p \<noteq> CHR ''x''" "p \<noteq> CHR ''X''" "p \<noteq> CHR ''o''" "p \<noteq> CHR ''O''"
      "p \<noteq> CHR ''b''" "p \<noteq> CHR ''B''"
      by (auto simp: isDigit_range)
    then show ?thesis using s Cons by (simp add: radixLiteral_def)
  qed
  have tw: "takeWhile isDigit s = s" "dropWhile isDigit s = []" using digits by simp_all
  have dec: "decimalLiteral s = WholeValue (int n)"
    using assms digits by (simp add: decimalLiteral_def strip tw exponentPart_def Let_def)
  have inf: "s \<noteq> ''Infinity''" "s \<noteq> ''+Infinity''" "s \<noteq> ''-Infinity''"
    using codes s by auto
  show ?thesis
    using assms(1) inf by (simp add: Number_def trim_digits [OF digits] radix dec)
qed

lemma digitsVal_padded:
  "0 \<le> n \<Longrightarrow> digitsVal 0 (padStart 2 CHR ''0'' (toString n)) = Some (nat n)"
  by (simp add: padStart_def toString_def digitsVal_leading_zeros digitsVal_natToString)

lemma Number_padded: "0 \<le> n \<Longrightarrow> Number (padStart 2 CHR ''0'' (toString n)) = Some (Whole n)"
proof -
  assume n: "0 \<le> n"
  have "padStart 2 CHR ''0'' (toString n) \<noteq> []"
    using n by (simp add: padStart_def toString_def natToString_nonempty)
  from Number_digits [OF this digitsVal_padded [OF n]] n show ?thesis by simp
qed

lemma split_no_sep: "c \<notin> set s \<Longrightarrow> split c s = [s]"
  by (induction s) auto

lemma split_at_sep: "c \<notin> set a \<Longrightarrow> split c (a @ c # r) = a # split c r"
  by (induction a) auto

lemma timeMinutes_formatSlot:
  assumes "0 \<le> m"
  shows "timeMinutes (formatSlot (Whole m)) = Some (Whole m)"
proof -
  let ?h = "padStart 2 CHR ''0'' (toString (m div 60))"
  let ?r = "padStart 2 CHR ''0'' (toString (m mod 60))"
  have h: "0 \<le> m div 60" and r: "0 \<le> m mod 60" using assms by simp_all
  have fmt: "formatSlot (Whole m) = ?h @ CHR '':'' # ?r"
    using assms by (simp add: formatSlot_def floorDiv_def remainder_def numberToString_def jsRem_def)
  have "split CHR '':'' (formatSlot (Whole m)) = [?h, ?r]"
    using digitsVal_no_colon [OF digitsVal_padded [OF h]]
      digitsVal_no_colon [OF digitsVal_padded [OF r]]
    by (simp add: fmt split_at_sep split_no_sep)
  then show ?thesis
    by (simp add: timeMinutes_def Number_padded [OF h] Number_padded [OF r] jsMul_def)
qed

subsection \<open>Claims about \<^verbatim>\<open>generateTimeSlots\<close>\<close>

lemmas parse_defs = timeMinutes_def Number_def trim_def isWhiteSpace_def radixLiteral_def
  decimalLiteral_def stripSign_def isDigit_def exponentPart_def digitVal_def jsAdd_def jsMul_def

lemmas format_defs = formatSlot_def floorDiv_def remainder_def numberToString_def jsRem_def
  padStart_def toString_def natToString.simps digitChar_def

text \<open>
  C2. Working hours 09:00 to 12:00, a service of 30 minutes and a buffer of 10 minutes:
  \<^verbatim>\<open>generateTimeSlots("09:00", "12:00", 30, 10)\<close> returns exactly the four slots
  09:00, 09:40, 10:20 and 11:00, in that order.
\<close>

theorem scenario_A_slots:
  "generateTimeSlots ''09:00'' ''12:00'' 30 10 = Returns [''09:00'', ''09:40'', ''10:20'', ''11:00'']"
  by (simp add: generateTimeSlots_def parse_defs jsLessEq_def slotLoop.simps format_defs)

lemma timeMinutes_0900: "timeMinutes ''09:00'' = Some (Whole 540)"
  by (simp add: parse_defs)

lemma timeMinutes_1200: "timeMinutes ''12:00'' = Some (Whole 720)"
  by (simp add: parse_defs)



text \<open>
  C3, as stated: a slot is emitted at a cursor exactly when \<open>cursor + duration\<close> does not
  exceed the end of the interval, the buffer left out of the stop test. The loop of the
  source tests \<open>current + (duration + bufferTime) <= end\<close>: for 09:00 to 09:35 with a
  service of 30 minutes and a buffer of 10 it returns no slot, where the wording of the
  design emits the slot at 09:00 (09:30 is not after 09:35).
\<close>

theorem slot_stop_condition_counterexample:
  "generateTimeSlots ''09:00'' ''09:35'' 30 10 = Returns []
   \<and> map (\<lambda>t. formatSlot (Whole t)) (specSlotStarts 540 575 30 10) = [''09:00'']
   \<and> timeMinutes ''09:00'' = Some (Whole 540) \<and> timeMinutes ''09:35'' = Some (Whole 575)"
  by (simp add: generateTimeSlots_def parse_defs jsLessEq_def slotLoop.simps
      specSlotStarts.simps format_defs)

text \<open>
  C3, amended: for a duration \<open>> 0\<close> and a buffer \<open>\<ge> 0\<close> the call returns, and a slot is
  in the returned list exactly when its start is reachable from the opening time by steps
  of \<open>duration + bufferTime\<close> and the start plus \<open>duration + bufferTime\<close> does not
  exceed the end of the interval.
\<close>

theorem slot_emitted_iff:
  assumes "0 < dur" and "0 \<le> buf"
    and "timeMinutes startT = Some (Whole openTime)"
    and "timeMinutes endT = Some (Whole closeTime)"
  shows "\<exists>slots. generateTimeSlots startT endT dur buf = Returns slots
     \<and> set slots = (\<lambda>t. formatSlot (Whole t)) `
           {t. \<exists>k::nat. t = openTime + int k * (dur + buf) \<and> t + dur + buf \<le> closeTime}"
proof -
  define sd where "sd = dur + buf"
  define n where "n = nat ((closeTime - openTime) div sd)"
  have sd: "0 < sd" using assms(1,2) by (simp add: sd_def)
  have gen: "generateTimeSlots startT endT dur buf =
      Returns (map (\<lambda>k. formatSlot (Whole (openTime + int k * sd))) [0..<n])"
    unfolding sd_def n_def using sd assms(3,4)
    by (intro generateTimeSlots_closed) (simp_all add: sd_def)
  have fits: "openTime + int k * sd + dur + buf \<le> closeTime \<longleftrightarrow> k < n" for k
  proof -
    have "openTime + int k * sd + dur + buf = openTime + int k * sd + sd"
      by (simp add: sd_def)
    then show ?thesis by (simp only: n_def slot_count_iff [OF sd])
  qed
  have "{t. \<exists>k::nat. t = openTime + int k * sd \<and> t + dur + buf \<le> closeTime}
      = (\<lambda>k. openTime + int k * sd) ` {0..<n}"
  proof (intro set_eqI iffI)
    fix t
    assume "t \<in> {t. \<exists>k::nat. t = openTime + int k * sd \<and> t + dur + buf \<le> closeTime}"
    then obtain k :: nat where k: "t = openTime + int k * sd" "t + dur + buf \<le> closeTime"
      by blast
    then have "k \<in> {0..<n}" using fits [of k] by simp
    then show "t \<in> (\<lambda>k. openTime + int k * sd) ` {0..<n}"
      using k(1) by (rule rev_image_eqI)
  next
    fix t
    assume "t \<in> (\<lambda>k. openTime + int k * sd) ` {0..<n}"
    then obtain k where "k < n" "t = openTime + int k * sd" by auto
    then show "t \<in> {t. \<exists>k::nat. t = openTime + int k * sd \<and> t + dur + buf \<le> closeTime}"
      using fits [of k] by blast
  qed
  then have "set (map (\<lambda>k. formatSlot (Whole (openTime + int k * sd))) [0..<n])
      = (\<lambda>t. formatSlot (Whole t)) `
          {t. \<exists>k::nat. t = openTime + int k * sd \<and> t + dur + buf \<le> closeTime}"
    by (simp add: image_image)
  with gen show ?thesis unfolding sd_def by blast
qed

theorem slot_emitted_iff_witness:
  "0 < (30::int) \<and> 0 \<le> (10::int)
   \<and> timeMinutes ''09:00'' = Some (Whole 540) \<and> timeMinutes ''12:00'' = Some (Whole 720)
   \<and> (\<exists>slots. generateTimeSlots ''09:00'' ''12:00'' 30 10 = Returns slots
     \<and> set slots = (\<lambda>t. formatSlot (Whole t)) `
           {t. \<exists>k::nat. t = 540 + int k * (30 + 10) \<and> t + 30 + 10 \<le> 720})"
  using slot_emitted_iff [OF _ _ timeMinutes_0900 timeMinutes_1200, of 30 10]
    timeMinutes_0900 timeMinutes_1200 by simp

text \<open>
  C6. For a duration \<open>> 0\<close> and a buffer \<open>\<ge> 0\<close> the call returns all the slots that
  fit and no other: there are as many slots as there are \<open>k\<close> with
  \<open>openTime + k * (duration + bufferTime) + (duration + bufferTime) \<le> closeTime\<close>, the
  first slot is the opening time as soon as one slot fits, and the \<open>k\<close>-th slot (from
  \<open>0\<close>) is the string of the cursor \<open>openTime + k * (duration + bufferTime)\<close>, so that
  consecutive slots start \<open>duration + bufferTime\<close> minutes apart. For an opening time
  that is not negative the string reads back as that number of minutes.
\<close>

theorem slots_evenly_spaced:
  assumes "0 < dur" and "0 \<le> buf"
    and "timeMinutes startT = Some (Whole openTime)"
    and "timeMinutes endT = Some (Whole closeTime)"
  shows "\<exists>slots. generateTimeSlots startT endT dur buf = Returns slots
     \<and> length slots = nat ((closeTime - openTime) div (dur + buf))
     \<and> (openTime + (dur + buf) \<le> closeTime \<longrightarrow>
          slots \<noteq> [] \<and> slots ! 0 = formatSlot (Whole openTime))
     \<and> (\<forall>k. k < length slots \<longleftrightarrow> openTime + int k * (dur + buf) + (dur + buf) \<le> closeTime)
     \<and> (\<forall>k<length slots.
          slots ! k = formatSlot (Whole (openTime + int k * (dur + buf)))
          \<and> (0 \<le> openTime \<longrightarrow>
               timeMinutes (slots ! k) = Some (Whole (openTime + int k * (dur + buf)))))"
proof -
  let ?sd = "dur + buf"
  let ?n = "nat ((closeTime - openTime) div ?sd)"
  let ?slots = "map (\<lambda>k. formatSlot (Whole (openTime + int k * ?sd))) [0..<?n]"
  have sd: "0 < ?sd" using assms(1,2) by simp
  have gen: "generateTimeSlots startT endT dur buf = Returns ?slots"
    by (rule generateTimeSlots_closed [OF sd assms(3,4)])
  have len: "length ?slots = ?n" by simp
  have count: "k < ?n \<longleftrightarrow> openTime + int k * ?sd + ?sd \<le> closeTime" for k
    by (rule slot_count_iff [OF sd])
  have first: "?slots \<noteq> [] \<and> ?slots ! 0 = formatSlot (Whole openTime)"
    if "openTime + ?sd \<le> closeTime"
  proof -
    from that count [of 0] have "0 < ?n" by simp
    then show ?thesis by (simp add: upt_conv_Cons del: upt_Suc)
  qed
  have nonneg: "0 \<le> openTime \<Longrightarrow> 0 \<le> openTime + int k * ?sd" for k
    using sd by simp
  have nth: "?slots ! k = formatSlot (Whole (openTime + int k * ?sd))
      \<and> (0 \<le> openTime \<longrightarrow> timeMinutes (?slots ! k) = Some (Whole (openTime + int k * ?sd)))"
    if "k < length ?slots" for k
    using that nonneg by (simp add: timeMinutes_formatSlot)
  show ?thesis
  proof (intro exI conjI)
    show "generateTimeSlots startT endT dur buf = Returns ?slots" by (rule gen)
    show "length ?slots = ?n" by (rule len)
    show "openTime + ?sd \<le> closeTime \<longrightarrow> ?slots \<noteq> [] \<and> ?slots ! 0 = formatSlot (Whole openTime)"
      using first by blast
    show "\<forall>k. k < length ?slots \<longleftrightarrow> openTime + int k * ?sd + ?sd \<le> closeTime"
      using count by (simp only: len) blast
    show "\<forall>k<length ?slots. ?slots ! k = formatSlot (Whole (openTime + int k * ?sd))
      \<and> (0 \<le> openTime \<longrightarrow> timeMinutes (?slots ! k) = Some (Whole (openTime + int k * ?sd)))"
      using nth by blast
  qed
qed

theorem slots_evenly_spaced_witness:
  "0 < (30::int) \<and> 0 \<le> (10::int)
   \<and> timeMinutes ''09:00'' = Some (Whole 540) \<and> timeMinutes ''12:00'' = Some (Whole 720)
   \<and> (540::int) + (30 + 10) \<le> 720 \<and> (0::int) \<le> 540
   \<and> (\<exists>slots. generateTimeSlots ''09:00'' ''12:00'' 30 10 = Returns slots
     \<and> length slots = 4
     \<and> slots \<noteq> [] \<and> slots ! 0 = formatSlot (Whole 540)
     \<and> (\<forall>k. k < length slots \<longleftrightarrow> 540 + int k * (30 + 10) + (30 + 10) \<le> 720)
     \<and> (\<forall>k<length slots.
          slots ! k = formatSlot (Whole (540 + int k * (30 + 10)))
          \<and> timeMinutes (slots ! k) = Some (Whole (540 + int k * (30 + 10)))))"
  using slots_evenly_spaced [OF _ _ timeMinutes_0900 timeMinutes_1200, of 30 10]
    timeMinutes_0900 timeMinutes_1200 by simp




section \<open>Properties of the date helpers\<close>

text \<open>
  C10, as stated: \<open>addMinutes (addMinutes d n) m = addMinutes d (n + m)\<close> for every date
  and all integers. The constructor clips: from the epoch, \<open>2 * 10^11\<close> minutes lead
  past the largest time value, the intermediate date is invalid and stays invalid when the
  same minutes are subtracted again, while adding \<open>0\<close> minutes gives the epoch back.
\<close>

theorem addMinutes_compose_counterexample:
  "addMinutes (addMinutes (Date (Some 0)) 200000000000) (- 200000000000) = Date None
   \<and> addMinutes (Date (Some 0)) (200000000000 + (- 200000000000)) = Date (Some 0)"
  by (simp add: addMinutes_def newDate_def maxTimeValue_def)

text \<open>
  C10, amended: \<open>addDays d n\<close> equals \<open>addMinutes d (n * 1440)\<close> for every date and
  integer, a day being \<open>86400000\<close> milliseconds whatever the time zone; and
  \<open>addMinutes (addMinutes d n) m\<close> equals \<open>addMinutes d (n + m)\<close> whenever the
  intermediate date \<open>addMinutes d n\<close> is valid, or \<open>d\<close> itself is invalid.
\<close>

theorem addDays_addMinutes:
  "addDays d n = addMinutes d (n * 1440)
   \<and> (\<forall>t. getTime d = Some t \<longrightarrow> addDays d n = newDate (Some (t + n * 86400000)))
   \<and> (getTime (addMinutes d n) \<noteq> None \<or> getTime d = None \<longrightarrow>
        addMinutes (addMinutes d n) m = addMinutes d (n + m))"
proof (intro conjI allI impI)
  show "addDays d n = addMinutes d (n * 1440)"
    by (cases "getTime d") (simp_all add: addDays_def addMinutes_def)
next
  fix t assume "getTime d = Some t"
  then show "addDays d n = newDate (Some (t + n * 86400000))"
    by (simp add: addDays_def mult.commute)
next
  assume valid: "getTime (addMinutes d n) \<noteq> None \<or> getTime d = None"
  show "addMinutes (addMinutes d n) m = addMinutes d (n + m)"
  proof (cases "getTime d")
    case None
    then show ?thesis by (simp add: addMinutes_def newDate_def)
  next
    case (Some t)
    with valid have "addMinutes d n = Date (Some (t + n * 60 * 1000))"
      by (auto simp: addMinutes_def newDate_def split: if_splits)
    then show ?thesis using Some by (simp add: addMinutes_def algebra_simps)
  qed
qed

theorem addDays_addMinutes_witness:
  "addDays (Date (Some 0)) 2 = addMinutes (Date (Some 0)) (2 * 1440)
   \<and> getTime (Date (Some 0)) = Some 0 \<and> addDays (Date (Some 0)) 2 = Date (Some 172800000)
   \<and> getTime (addMinutes (Date (Some 0)) 90) \<noteq> None
   \<and> addMinutes (addMinutes (Date (Some 0)) 90) 30 = addMinutes (Date (Some 0)) (90 + 30)
   \<and> addMinutes (Date (Some 0)) (90 + 30) = Date (Some 7200000)
   \<and> getTime (Date None) = None
   \<and> addMinutes (addMinutes (Date None) 90) 30 = addMinutes (Date None) (90 + 30)"
  using addDays_addMinutes [of "Date (Some 0)" 2 30] addDays_addMinutes [of "Date (Some 0)" 90 30]
    addDays_addMinutes [of "Date None" 90 30]
  by (simp add: addMinutes_def newDate_def maxTimeValue_def)

section \<open>Properties of \<^verbatim>\<open>isBusinessHours\<close>\<close>

text \<open>Monday 5 January 1970, 12:00 UTC, in a process running on UTC.\<close>

lemma monday_noon_day: "toLowerCase (weekdayLong (\<lambda>_. 0) (Date (Some 388800000))) = ''monday''"
  by code_simp

lemma monday_noon_time: "formatTime (\<lambda>_. 0) (Date (Some 388800000)) = ''12:00''"
  by (simp add: formatTime_def toTimeString_def localTime_def pad2_def padStart_def toString_def
      natToString.simps digitChar_def)

text \<open>
  C7. When the entry of the date's weekday is absent or is the empty list (a closed
  day), \<^verbatim>\<open>isBusinessHours\<close> is false, whatever the time of day.
\<close>

theorem closed_day_not_business_hours:
  assumes "workingHours (toLowerCase (weekdayLong tz date)) = None
    \<or> workingHours (toLowerCase (weekdayLong tz date)) = Some (Slots [])"
  shows "\<not> isBusinessHours tz date workingHours"
  using assms by (auto simp: isBusinessHours_def)

theorem closed_day_not_business_hours_witness:
  "Map.empty (toLowerCase (weekdayLong (\<lambda>_. 0) (Date (Some 388800000)))) = (None :: DayHours option)
   \<and> \<not> isBusinessHours (\<lambda>_. 0) (Date (Some 388800000)) Map.empty
   \<and> [''monday'' \<mapsto> Slots []] (toLowerCase (weekdayLong (\<lambda>_. 0) (Date (Some 388800000)))) = Some (Slots [])
   \<and> \<not> isBusinessHours (\<lambda>_. 0) (Date (Some 388800000)) [''monday'' \<mapsto> Slots []]"
  using closed_day_not_business_hours [of Map.empty "\<lambda>_. 0" "Date (Some 388800000)"]
    closed_day_not_business_hours [of "[''monday'' \<mapsto> Slots []]" "\<lambda>_. 0" "Date (Some 388800000)"]
  by (simp add: monday_noon_day)

text \<open>
  C9. Every block of the day's list is closed at both ends: the result is true exactly
  when some block has \<open>start \<le> time \<le> end\<close>. So a time equal to the end of a block
  (with \<open>start \<le> end\<close>, as 09:00 to 12:00) is within business hours.
\<close>

theorem business_hours_closed_at_end:
  assumes "workingHours (toLowerCase (weekdayLong tz date)) = Some (Slots dayHours)"
  shows "(isBusinessHours tz date workingHours \<longleftrightarrow>
           (\<exists>slot\<in>set dayHours. slot_start slot \<le> formatTime tz date \<and> formatTime tz date \<le> slot_end slot))
     \<and> (\<forall>slot\<in>set dayHours. slot_start slot \<le> slot_end slot \<and> formatTime tz date = slot_end slot \<longrightarrow>
           isBusinessHours tz date workingHours)"
proof -
  have iff: "isBusinessHours tz date workingHours \<longleftrightarrow>
      (\<exists>slot\<in>set dayHours. slot_start slot \<le> formatTime tz date \<and> formatTime tz date \<le> slot_end slot)"
    using assms by (cases dayHours) (auto simp: isBusinessHours_def list_ex_iff Let_def)
  then show ?thesis by auto
qed

theorem business_hours_closed_at_end_witness:
  "[''monday'' \<mapsto> Slots [\<lparr>slot_start = ''09:00'', slot_end = ''12:00''\<rparr>]]
       (toLowerCase (weekdayLong (\<lambda>_. 0) (Date (Some 388800000))))
     = Some (Slots [\<lparr>slot_start = ''09:00'', slot_end = ''12:00''\<rparr>])
   \<and> (''09:00'' :: string) \<le> ''12:00''
   \<and> formatTime (\<lambda>_. 0) (Date (Some 388800000)) = ''12:00''
   \<and> isBusinessHours (\<lambda>_. 0) (Date (Some 388800000))
        [''monday'' \<mapsto> Slots [\<lparr>slot_start = ''09:00'', slot_end = ''12:00''\<rparr>]]"
  using business_hours_closed_at_end [of "[''monday'' \<mapsto> Slots [\<lparr>slot_start = ''09:00'', slot_end = ''12:00''\<rparr>]]"
      "\<lambda>_. 0" "Date (Some 388800000)" "[\<lparr>slot_start = ''09:00'', slot_end = ''12:00''\<rparr>]"]
  by (simp add: monday_noon_day monday_noon_time)

section \<open>Properties of the booking engine\<close>

subsection \<open>Each operation keeps the invariant\<close>

lemma conflicts_sym: "conflicts svcs a b = conflicts svcs b a"
  by (auto simp: conflicts_def)

lemma attemptBook_error:
  "attemptBook eng now business staff service customer start = (Inl e, eng') \<Longrightarrow> eng' = eng"
  by (auto simp: attemptBook_def Let_def split: option.splits if_splits)

lemma attemptBook_booked:
  assumes "attemptBook eng now business staff service customer start = (Inr a, eng')"
  shows "services eng' = services eng" and "appointments eng' = appointments eng @ [a]"
    and "\<forall>b\<in>set (appointments eng). \<not> conflicts (services eng) a b"
  using assms
  by (auto simp: attemptBook_def Let_def list_ex_iff split: option.splits if_splits)

lemma attemptBook_invariant:
  assumes "noDoubleBooking eng"
    and "attemptBook eng now business staff service customer start = (r, eng')"
  shows "noDoubleBooking eng'"
proof (cases r)
  case (Inl e)
  with assms show ?thesis using attemptBook_error by blast
next
  case (Inr a)
  from attemptBook_booked [OF assms(2) [unfolded Inr]] assms(1) show ?thesis
    by (simp add: noDoubleBooking_def sorted_wrt_append conflicts_sym [of _ a])
qed

lemma updateAppointment_invariant:
  assumes "\<And>x b. \<not> conflicts svcs (f x) b"
    and "sorted_wrt (\<lambda>a b. \<not> conflicts svcs a b) as"
  shows "sorted_wrt (\<lambda>a b. \<not> conflicts svcs a b) (updateAppointment i f as)"
  using assms(2)
proof (induction as)
  case Nil
  then show ?case by simp
next
  case (Cons a as)
  have sub: "set (updateAppointment i f as) \<subseteq> set as \<union> range f" for as
    by (induction as) auto
  show ?case
  proof (cases "appointment_id a = i")
    case True
    with Cons.prems assms(1) show ?thesis by simp
  next
    case False
    have "\<not> conflicts svcs a y" if "y \<in> set (updateAppointment i f as)" for y
    proof -
      from that sub have "y \<in> set as \<or> y \<in> range f" by blast
      then show ?thesis
      proof
        assume "y \<in> set as" with Cons.prems show ?thesis by simp
      next
        assume "y \<in> range f" with assms(1) show ?thesis
          by (auto simp: conflicts_sym [of svcs a])
      qed
    qed
    with False Cons show ?thesis by simp
  qed
qed

lemma markCancelled_error: "markCancelled eng now i = (Inl e, eng') \<Longrightarrow> eng' = eng"
  by (auto simp: markCancelled_def split: option.splits if_splits)

lemma markCancelled_done:
  assumes "markCancelled eng now i = (Inr a, eng')"
  shows "findAppointment eng i = Some a" and "status a = SCHEDULED"
    and "eng' = eng\<lparr>appointments :=
           updateAppointment i (\<lambda>x. x\<lparr>status := CANCELLED, updatedAt := now\<rparr>) (appointments eng)\<rparr>"
  using assms by (auto simp: markCancelled_def split: option.splits if_splits)

lemma markCancelled_invariant:
  assumes "noDoubleBooking eng" and "markCancelled eng now i = (r, eng')"
  shows "noDoubleBooking eng'"
proof (cases r)
  case (Inl e)
  with assms show ?thesis using markCancelled_error by blast
next
  case (Inr a)
  have "\<not> conflicts svcs (x\<lparr>status := CANCELLED, updatedAt := now\<rparr>) b" for svcs x b
    by (simp add: conflicts_def)
  from updateAppointment_invariant [where f = "\<lambda>x. x\<lparr>status := CANCELLED, updatedAt := now\<rparr>", OF this]
    markCancelled_done(3) [OF assms(2) [unfolded Inr]] assms(1)
  show ?thesis by (simp add: noDoubleBooking_def)
qed

lemma cancel_invariant:
  assumes "noDoubleBooking eng" and "cancel eng now i actor = (r, eng')"
  shows "noDoubleBooking eng'"
proof (cases "markCancelled eng now i")
  case (Pair r1 eng1)
  then have inv1: "noDoubleBooking eng1" using assms(1) markCancelled_invariant by blast
  show ?thesis
  proof (cases r1)
    case (Inl e)
    with Pair assms show ?thesis by (simp add: cancel_def)
  next
    case (Inr a)
    with Pair assms(2) have "eng' = eng1\<lparr>events := events eng1 @ cancelEvents a\<rparr>"
      by (auto simp: cancel_def)
    with inv1 show ?thesis by (simp add: noDoubleBooking_def)
  qed
qed

lemma updateAppointment_restore:
  assumes "find (\<lambda>a. appointment_id a = i) as = Some original"
    and "\<And>x. appointment_id (f x) = appointment_id x"
  shows "updateAppointment i (\<lambda>_. original) (updateAppointment i f as) = as"
  using assms(1)
proof (induction as)
  case Nil
  then show ?case by simp
next
  case (Cons a as)
  then show ?case using assms(2) by (auto split: if_splits)
qed

lemma reschedule_error_restores:
  assumes "reschedule eng now i newStart actor = (Inl e, eng')"
  shows "eng' = eng"
proof (cases "markCancelled eng now i")
  case (Pair r1 eng1)
  show ?thesis
  proof (cases r1)
    case (Inl e1)
    with Pair assms show ?thesis by (simp add: reschedule_def)
  next
    case (Inr original)
    note marked = markCancelled_done [OF Pair [unfolded Inr]]
    obtain r2 eng2 where book: "attemptBook eng1 now (businessId original) (staffId original)
        (serviceId original) (customerId original) newStart = (r2, eng2)"
      by (cases "attemptBook eng1 now (businessId original) (staffId original)
        (serviceId original) (customerId original) newStart") 
    show ?thesis
    proof (cases r2)
      case (Inl e2)
      with book have eng2: "eng2 = eng1" using attemptBook_error by blast
      have "updateAppointment i (\<lambda>_. original)
          (updateAppointment i (\<lambda>x. x\<lparr>status := CANCELLED, updatedAt := now\<rparr>) (appointments eng))
          = appointments eng"
        using marked(1) by (intro updateAppointment_restore) (simp_all add: findAppointment_def)
      with Pair Inr book Inl eng2 marked(3) assms show ?thesis
        by (simp add: reschedule_def)
    next
      case (Inr booked)
      with Pair \<open>r1 = Inr original\<close> book assms show ?thesis by (simp add: reschedule_def)
    qed
  qed
qed

lemma reschedule_invariant:
  assumes "noDoubleBooking eng" and "reschedule eng now i newStart actor = (r, eng')"
  shows "noDoubleBooking eng'"
proof (cases r)
  case (Inl e)
  with assms show ?thesis using reschedule_error_restores by blast
next
  case booked: (Inr booked)
  show ?thesis
  proof (cases "markCancelled eng now i")
    case (Pair r1 eng1)
    then have inv1: "noDoubleBooking eng1" using assms(1) markCancelled_invariant by blast
    show ?thesis
    proof (cases r1)
      case (Inl e1)
      with Pair assms booked show ?thesis by (simp add: reschedule_def)
    next
      case (Inr original)
      obtain r2 eng2 where book: "attemptBook eng1 now (businessId original) (staffId original)
          (serviceId original) (customerId original) newStart = (r2, eng2)"
        by (cases "attemptBook eng1 now (businessId original) (staffId original)
          (serviceId original) (customerId original) newStart")
      then have inv2: "noDoubleBooking eng2" using inv1 attemptBook_invariant by blast
      from Pair Inr book assms(2) booked
      have "eng' = eng2\<lparr>events := events eng2 @ cancelEvents original\<rparr>"
        by (cases r2) (auto simp: reschedule_def)
      with inv2 show ?thesis by (simp add: noDoubleBooking_def)
    qed
  qed
qed

lemma handle_invariant:
  assumes "noDoubleBooking eng"
  shows "noDoubleBooking (snd (handle eng call))"
proof (cases call)
  case (fields now acquired request)
  show ?thesis
  proof (cases acquired)
    case False
    with fields assms show ?thesis by (simp add: handle_def)
  next
    case True
    show ?thesis
    proof (cases request)
      case (AttemptBook business staff service customer start)
      with fields True assms attemptBook_invariant [OF assms, of now business staff service customer start]
      show ?thesis by (cases "attemptBook eng now business staff service customer start") (simp add: handle_def)
    next
      case (Cancel i actor)
      with fields True cancel_invariant [OF assms, of now i actor]
      show ?thesis by (cases "cancel eng now i actor") (simp add: handle_def)
    next
      case (Reschedule i newStart actor)
      with fields True reschedule_invariant [OF assms, of now i newStart actor]
      show ?thesis by (cases "reschedule eng now i newStart actor") (simp add: handle_def)
    qed
  qed
qed

lemma run_invariant: "noDoubleBooking eng \<Longrightarrow> noDoubleBooking (run eng calls)"
  by (induction calls arbitrary: eng) (simp_all add: handle_invariant)

text \<open>A call that returns an error, whichever, leaves the state as it was.\<close>

lemma handle_error_unchanged:
  assumes "handle eng call = (Inl e, eng')"
  shows "eng' = eng"
proof (cases call)
  case (fields now acquired request)
  show ?thesis
  proof (cases acquired)
    case False
    with fields assms show ?thesis by (simp add: handle_def)
  next
    case True
    show ?thesis
    proof (cases request)
      case (AttemptBook business staff service customer start)
      with fields True assms show ?thesis
        by (auto simp: handle_def dest: attemptBook_error)
    next
      case (Cancel i actor)
      with fields True assms show ?thesis
        by (cases "markCancelled eng now i") (auto simp: handle_def cancel_def split: sum.splits)
    next
      case (Reschedule i newStart actor)
      with fields True assms show ?thesis
        by (auto simp: handle_def dest: reschedule_error_restores)
    qed
  qed
qed

lemma attemptBook_services:
  "attemptBook eng now business staff service customer start = (r, eng') \<Longrightarrow>
   services eng' = services eng"
  by (cases r) (auto dest: attemptBook_error attemptBook_booked(1))

lemma markCancelled_services: "markCancelled eng now i = (r, eng') \<Longrightarrow> services eng' = services eng"
  by (cases r) (auto dest: markCancelled_error markCancelled_done(3))

lemma cancel_services: "cancel eng now i actor = (r, eng') \<Longrightarrow> services eng' = services eng"
  by (cases "markCancelled eng now i")
    (auto simp: cancel_def split: sum.splits dest: markCancelled_services)

lemma reschedule_services:
  assumes "reschedule eng now i newStart actor = (r, eng')"
  shows "services eng' = services eng"
proof (cases "markCancelled eng now i")
  case (Pair r1 eng1)
  then have s1: "services eng1 = services eng" by (rule markCancelled_services)
  show ?thesis
  proof (cases r1)
    case (Inl e1)
    with Pair assms show ?thesis by (auto simp: reschedule_def)
  next
    case (Inr original)
    obtain r2 eng2 where book: "attemptBook eng1 now (businessId original) (staffId original)
        (serviceId original) (customerId original) newStart = (r2, eng2)"
      by (cases "attemptBook eng1 now (businessId original) (staffId original)
        (serviceId original) (customerId original) newStart")
    then have "services eng2 = services eng1" by (rule attemptBook_services)
    with Pair Inr book assms s1 show ?thesis
      by (cases r2) (auto simp: reschedule_def)
  qed
qed

lemma handle_services: "services (snd (handle eng call)) = services eng"
proof (cases call)
  case (fields now acquired request)
  show ?thesis
  proof (cases acquired)
    case False
    with fields show ?thesis by (simp add: handle_def)
  next
    case True
    show ?thesis
    proof (cases request)
      case (AttemptBook business staff service customer start)
      with fields True attemptBook_services [of eng now business staff service customer start]
      show ?thesis
        by (cases "attemptBook eng now business staff service customer start") (simp add: handle_def)
    next
      case (Cancel i actor)
      with fields True cancel_services [of eng now i actor]
      show ?thesis by (cases "cancel eng now i actor") (simp add: handle_def)
    next
      case (Reschedule i newStart actor)
      with fields True reschedule_services [of eng now i newStart actor]
      show ?thesis by (cases "reschedule eng now i newStart actor") (simp add: handle_def)
    qed
  qed
qed

lemma run_services: "services (run eng calls) = services eng"
  by (induction calls arbitrary: eng) (simp_all add: handle_services)

lemma noDoubleBooking_nth:
  assumes "noDoubleBooking eng"
    and "i < length (appointments eng)" and "j < length (appointments eng)" and "i \<noteq> j"
  shows "\<not> conflicts (services eng) (appointments eng ! i) (appointments eng ! j)"
proof (cases "i < j")
  case True
  with assms show ?thesis by (simp add: noDoubleBooking_def sorted_wrt_iff_nth_less)
next
  case False
  with assms(4) have "j < i" by simp
  with assms have "\<not> conflicts (services eng) (appointments eng ! j) (appointments eng ! i)"
    by (simp add: noDoubleBooking_def sorted_wrt_iff_nth_less)
  then show ?thesis by (simp add: conflicts_sym)
qed

text \<open>
  The uniqueness constraint of the schema is weaker than the invariant: two rows of one
  staff member that overlap without being equal pass both constraints of the table. The
  invariant rests on the overlap check of \<open>attemptBook\<close>.
\<close>

lemma unique_slot_allows_overlap:
  "valid_times bobsAppointment
   \<and> valid_times (bobsAppointment\<lparr>startTime := 33300000, endTime := 35100000\<rparr>)
   \<and> unique_slot [bobsAppointment, bobsAppointment\<lparr>startTime := 33300000, endTime := 35100000\<rparr>]
   \<and> conflicts Map.empty bobsAppointment
        (bobsAppointment\<lparr>startTime := 33300000, endTime := 35100000\<rparr>)"
  by (simp add: valid_times_def unique_slot_def conflicts_def occupiedUntil_def bobsAppointment_def)

subsection \<open>Claims about the engine\<close>

text \<open>
  C1. From a store without a double booking, every sequence of calls of the engine
  (bookings, cancellations, reschedules; succeeding, failing with an error, or finding
  the scope busy) leads to a store without a double booking: any two distinct rows of
  one staff member that are both Scheduled have disjoint intervals
  \<open>[start, end + buffer)\<close>.
\<close>

theorem no_double_booking_preserved:
  assumes "noDoubleBooking eng"
  shows "noDoubleBooking (run eng calls)
     \<and> (\<forall>i j. i < length (appointments (run eng calls))
            \<and> j < length (appointments (run eng calls)) \<and> i \<noteq> j
            \<and> staffId (appointments (run eng calls) ! i) = staffId (appointments (run eng calls) ! j)
            \<and> status (appointments (run eng calls) ! i) = SCHEDULED
            \<and> status (appointments (run eng calls) ! j) = SCHEDULED
          \<longrightarrow> occupiedUntil (services eng) (appointments (run eng calls) ! i)
                  \<le> startTime (appointments (run eng calls) ! j)
              \<or> occupiedUntil (services eng) (appointments (run eng calls) ! j)
                  \<le> startTime (appointments (run eng calls) ! i))"
proof -
  have inv: "noDoubleBooking (run eng calls)" using assms by (rule run_invariant)
  have "\<not> conflicts (services eng) (appointments (run eng calls) ! i) (appointments (run eng calls) ! j)"
    if "i < length (appointments (run eng calls))" "j < length (appointments (run eng calls))" "i \<noteq> j"
    for i j
    using noDoubleBooking_nth [OF inv that] by (simp add: run_services)
  then have "occupiedUntil (services eng) (appointments (run eng calls) ! i)
        \<le> startTime (appointments (run eng calls) ! j)
      \<or> occupiedUntil (services eng) (appointments (run eng calls) ! j)
        \<le> startTime (appointments (run eng calls) ! i)"
    if "i < length (appointments (run eng calls))" "j < length (appointments (run eng calls))"
      "i \<noteq> j"
      "staffId (appointments (run eng calls) ! i) = staffId (appointments (run eng calls) ! j)"
      "status (appointments (run eng calls) ! i) = SCHEDULED"
      "status (appointments (run eng calls) ! j) = SCHEDULED"
    for i j
    using that unfolding conflicts_def by (meson not_le_imp_less)
  with inv show ?thesis by blast
qed

lemma scenarioEngine_invariant: "noDoubleBooking scenarioEngine"
  by (simp add: noDoubleBooking_def scenarioEngine_def conflicts_def occupiedUntil_def
      bobsAppointment_def carolsAppointment_def)

lemma scenario_run:
  "map (\<lambda>a. (appointment_id a, startTime a, status a)) (appointments (run scenarioEngine scenarioCalls))
   = [(0, 32400000, CANCELLED), (1, 37200000, SCHEDULED),
      (2, 34800000, CANCELLED), (3, 34800000, SCHEDULED)]"
  by code_simp

theorem no_double_booking_preserved_witness:
  "noDoubleBooking scenarioEngine
   \<and> noDoubleBooking (run scenarioEngine scenarioCalls)
   \<and> map (\<lambda>a. (appointment_id a, startTime a, status a)) (appointments (run scenarioEngine scenarioCalls))
     = [(0, 32400000, CANCELLED), (1, 37200000, SCHEDULED),
        (2, 34800000, CANCELLED), (3, 34800000, SCHEDULED)]"
  using no_double_booking_preserved [OF scenarioEngine_invariant, of scenarioCalls]
    scenarioEngine_invariant scenario_run by simp

text \<open>
  C4. A reschedule of a Scheduled appointment that ends in an error (the new booking was
  refused, whatever the reason) leaves the whole state as it was before the call: the
  original appointment is found unchanged, with status Scheduled.
\<close>

theorem reschedule_failure_keeps_original:
  assumes "findAppointment eng i = Some original" and "status original = SCHEDULED"
    and "reschedule eng now i newStart actor = (Inl e, eng')"
  shows "eng' = eng \<and> findAppointment eng' i = Some original
     \<and> map_option status (findAppointment eng' i) = Some SCHEDULED"
proof -
  from assms(3) have "eng' = eng" by (rule reschedule_error_restores)
  with assms(1,2) show ?thesis by simp
qed

lemma scenario_reschedule_taken:
  "reschedule scenarioEngine 4000 0 36000000 ''bob'' = (Inl (ConflictError SlotTaken), scenarioEngine)"
  by (simp add: reschedule_def markCancelled_def findAppointment_def scenarioEngine_def
      attemptBook_def conflicts_def occupiedUntil_def Let_def bobsAppointment_def
      carolsAppointment_def)

theorem reschedule_failure_keeps_original_witness:
  "findAppointment scenarioEngine 0 = Some bobsAppointment \<and> status bobsAppointment = SCHEDULED
   \<and> reschedule scenarioEngine 4000 0 36000000 ''bob'' = (Inl (ConflictError SlotTaken), scenarioEngine)
   \<and> findAppointment (snd (reschedule scenarioEngine 4000 0 36000000 ''bob'')) 0 = Some bobsAppointment
   \<and> map_option status (findAppointment (snd (reschedule scenarioEngine 4000 0 36000000 ''bob'')) 0)
       = Some SCHEDULED"
proof -
  have found: "findAppointment scenarioEngine 0 = Some bobsAppointment"
    by (simp add: findAppointment_def scenarioEngine_def bobsAppointment_def)
  have scheduled: "status bobsAppointment = SCHEDULED"
    by (simp add: bobsAppointment_def)
  from reschedule_failure_keeps_original [OF found scheduled scenario_reschedule_taken]
    found scheduled scenario_reschedule_taken
  show ?thesis by simp
qed

end
